theory Spec2Isabelle
  imports Main "HOL-Library.Sublist"
begin

section \<open>Python strings\<close>

text \<open>
  The scraper (\<^verbatim>\<open>dataroma_scraper.py\<close>) works on Python \<^verbatim>\<open>str\<close> values. They are
  modelled as \<^typ>\<open>string\<close>, one \<^typ>\<open>char\<close> per code point, and the string methods are
  given on the ASCII range, where \<^verbatim>\<open>str.lower\<close>, \<^verbatim>\<open>str.upper\<close>, \<^verbatim>\<open>str.strip\<close> and the
  classes \<^verbatim>\<open>\s\<close>, \<^verbatim>\<open>\b\<close> of \<^verbatim>\<open>re\<close> are the tables below. Python's case mapping and
  character classes of code points beyond ASCII are not part of the model.
\<close>

definition ascii_uppercase :: string where
  "ascii_uppercase = ''ABCDEFGHIJKLMNOPQRSTUVWXYZ''"

definition ascii_lowercase :: string where
  "ascii_lowercase = ''abcdefghijklmnopqrstuvwxyz''"

definition digits :: string where
  "digits = ''0123456789''"

text \<open>The ASCII characters for which \<^verbatim>\<open>str.isspace\<close> holds: tab, line feed, vertical tab,
  form feed, carriage return, the separators 0x1C to 0x1F, and the space.\<close>

definition whitespace :: string where
  "whitespace = [CHR 0x09, CHR 0x0A, CHR 0x0B, CHR 0x0C, CHR 0x0D,
                 CHR 0x1C, CHR 0x1D, CHR 0x1E, CHR 0x1F, CHR 0x20]"

definition is_space :: "char \<Rightarrow> bool" where
  "is_space c = (c \<in> set whitespace)"

definition lower_char :: "char \<Rightarrow> char" where
  "lower_char c =
     (case map_of (zip ascii_uppercase ascii_lowercase) c of Some d \<Rightarrow> d | None \<Rightarrow> c)"

definition upper_char :: "char \<Rightarrow> char" where
  "upper_char c =
     (case map_of (zip ascii_lowercase ascii_uppercase) c of Some d \<Rightarrow> d | None \<Rightarrow> c)"

definition str_lower :: "string \<Rightarrow> string" where
  "str_lower s = map lower_char s"

definition str_upper :: "string \<Rightarrow> string" where
  "str_upper s = map upper_char s"

definition str_strip :: "string \<Rightarrow> string" where
  "str_strip s = rev (dropWhile is_space (rev (dropWhile is_space s)))"

text \<open>\<^verbatim>\<open>sub in s\<close>: \<open>sub\<close> occurs in \<open>s\<close> as a contiguous substring.\<close>

fun str_in :: "string \<Rightarrow> string \<Rightarrow> bool" where
  "str_in sub [] = (sub = [])"
| "str_in sub (c # cs) = (prefix sub (c # cs) \<or> str_in sub cs)"

text \<open>\<^verbatim>\<open>sep.join(parts)\<close>\<close>

fun join :: "string \<Rightarrow> string list \<Rightarrow> string" where
  "join sep [] = []"
| "join sep [x] = x"
| "join sep (x # y # ys) = x @ sep @ join sep (y # ys)"

section \<open>The parsed page\<close>

text \<open>
  A \<^verbatim>\<open>BeautifulSoup\<close> document is a tree of tags and text nodes. Of a tag's attributes
  the scraper reads \<^verbatim>\<open>id\<close>, \<^verbatim>\<open>class\<close> and \<^verbatim>\<open>href\<close> only.
\<close>

record tag_attrs =
  attr_id :: "string option"
  attr_class :: "string list"
  attr_href :: "string option"

datatype node = NavigableString string | Tag string tag_attrs "node list"

definition no_attrs :: tag_attrs where
  "no_attrs = \<lparr>attr_id = None, attr_class = [], attr_href = None\<rparr>"

text \<open>\<^verbatim>\<open>node.descendants\<close>: every node below, in document order.\<close>

fun descendants :: "node \<Rightarrow> node list" where
  "descendants (NavigableString s) = []"
| "descendants (Tag t a kids) = concat (map (\<lambda>k. k # descendants k) kids)"

fun is_tag :: "string list \<Rightarrow> node \<Rightarrow> bool" where
  "is_tag names (NavigableString s) = False"
| "is_tag names (Tag t a kids) = (t \<in> set names)"

fun attrs_of :: "node \<Rightarrow> tag_attrs" where
  "attrs_of (NavigableString s) = no_attrs"
| "attrs_of (Tag t a kids) = a"

text \<open>\<^verbatim>\<open>node.find_all(names)\<close> and \<^verbatim>\<open>node.find(names)\<close>, with a further test on the tag.\<close>

definition find_all :: "string list \<Rightarrow> (node \<Rightarrow> bool) \<Rightarrow> node \<Rightarrow> node list" where
  "find_all names ok n = filter (\<lambda>d. is_tag names d \<and> ok d) (descendants n)"

definition find_first :: "string list \<Rightarrow> (node \<Rightarrow> bool) \<Rightarrow> node \<Rightarrow> node option" where
  "find_first names ok n = (case find_all names ok n of [] \<Rightarrow> None | d # _ \<Rightarrow> Some d)"

definition any_tag :: "node \<Rightarrow> bool" where
  "any_tag d = True"

fun all_strings :: "node list \<Rightarrow> string list" where
  "all_strings [] = []"
| "all_strings (NavigableString s # ds) = s # all_strings ds"
| "all_strings (Tag t a kids # ds) = all_strings ds"

text \<open>\<^verbatim>\<open>node.get_text(sep, strip=True)\<close>: the text nodes below, each stripped, the empty
  ones dropped, joined by \<open>sep\<close>.\<close>

definition get_text :: "string \<Rightarrow> node \<Rightarrow> string" where
  "get_text sep n =
     join sep (filter (\<lambda>s. s \<noteq> []) (map str_strip (all_strings (descendants n))))"

section \<open>Regular expressions\<close>

text \<open>
  The fragment of \<^verbatim>\<open>re\<close> that the scraper's patterns use: literals, character sets,
  the dot, greedy repetition of a set, optional parts, alternatives, sequences, one
  capturing group and the word boundary. Matching is backtracking with Python's
  priorities: \<open>ms\<close> returns the states after every way to match, the preferred one first.
  A state is the character before the position, the rest of the subject and group 1.
\<close>

datatype item = Ch char | Rng char char | Sp

datatype cset = Set "item list" | Dot

datatype rx =
    Lit string
  | One cset
  | Rep cset nat "nat option"
  | Opt rx
  | Alt rx rx
  | Cat "rx list"
  | Grp rx
  | WordB

type_synonym mstate = "char option \<times> string \<times> string option"

definition in_range :: "char \<Rightarrow> char \<Rightarrow> char \<Rightarrow> bool" where
  "in_range lo hi c = ((of_char lo :: nat) \<le> of_char c \<and> (of_char c :: nat) \<le> of_char hi)"

text \<open>The flag \<open>ic\<close> is \<^verbatim>\<open>re.IGNORECASE\<close>.\<close>

fun item_ok :: "bool \<Rightarrow> item \<Rightarrow> char \<Rightarrow> bool" where
  "item_ok ic (Ch x) c = (if ic then lower_char c = lower_char x else c = x)"
| "item_ok ic (Rng lo hi) c =
     (in_range lo hi c \<or> (ic \<and> (in_range lo hi (lower_char c) \<or> in_range lo hi (upper_char c))))"
| "item_ok ic Sp c = is_space c"

fun cset_ok :: "bool \<Rightarrow> cset \<Rightarrow> char \<Rightarrow> bool" where
  "cset_ok ic (Set items) c = list_ex (\<lambda>i. item_ok ic i c) items"
| "cset_ok ic Dot c = (c \<noteq> CHR 0x0A)"

definition is_word :: "char \<Rightarrow> bool" where
  "is_word c = (c \<in> set (ascii_lowercase @ ascii_uppercase @ digits @ ''_''))"

definition word_before :: "char option \<Rightarrow> bool" where
  "word_before p = (case p of None \<Rightarrow> False | Some c \<Rightarrow> is_word c)"

definition word_at :: "string \<Rightarrow> bool" where
  "word_at s = (case s of [] \<Rightarrow> False | c # _ \<Rightarrow> is_word c)"

fun eat :: "bool \<Rightarrow> string \<Rightarrow> mstate \<Rightarrow> mstate list" where
  "eat ic [] st = [st]"
| "eat ic (x # xs) (p, [], g) = []"
| "eat ic (x # xs) (p, c # cs, g) =
     (if item_ok ic (Ch x) c then eat ic xs (Some c, cs, g) else [])"

fun advance :: "nat \<Rightarrow> mstate \<Rightarrow> mstate" where
  "advance k (p, s, g) = ((case rev (take k s) of [] \<Rightarrow> p | c # _ \<Rightarrow> Some c), drop k s, g)"

text \<open>The repetition counts from \<open>m\<close> down to \<open>lo\<close>: greedy first.\<close>

fun counts :: "nat \<Rightarrow> nat \<Rightarrow> nat list" where
  "counts lo 0 = (if lo = 0 then [0] else [])"
| "counts lo (Suc m) = (if lo \<le> Suc m then Suc m # counts lo m else [])"

fun ms :: "bool \<Rightarrow> rx \<Rightarrow> mstate \<Rightarrow> mstate list" where
  "ms ic (Lit l) st = eat ic l st"
| "ms ic (One cs) (p, [], g) = []"
| "ms ic (One cs) (p, c # s, g) = (if cset_ok ic cs c then [(Some c, s, g)] else [])"
| "ms ic (Rep cs lo hi) (p, s, g) =
     (let run = takeWhile (cset_ok ic cs) s;
          m = length (case hi of None \<Rightarrow> run | Some h \<Rightarrow> take h run)
      in map (\<lambda>k. advance k (p, s, g)) (counts lo m))"
| "ms ic (Opt r) st = ms ic r st @ [st]"
| "ms ic (Alt a b) st = ms ic a st @ ms ic b st"
| "ms ic (Cat []) st = [st]"
| "ms ic (Cat (r # rs)) st = concat (map (ms ic (Cat rs)) (ms ic r st))"
| "ms ic (Grp r) (p, s, g) =
     map (\<lambda>(p', s', g'). (p', s', Some (take (length s - length s') s))) (ms ic r (p, s, g))"
| "ms ic WordB (p, s, g) = (if word_before p \<noteq> word_at s then [(p, s, g)] else [])"

text \<open>\<^verbatim>\<open>re.search\<close>: the first start position, from the left, at which the pattern matches,
  with the preferred match there.\<close>

fun search_from :: "bool \<Rightarrow> rx \<Rightarrow> char option \<Rightarrow> string \<Rightarrow> mstate option" where
  "search_from ic r p [] = (case ms ic r (p, [], None) of [] \<Rightarrow> None | m # _ \<Rightarrow> Some m)"
| "search_from ic r p (c # cs) =
     (case ms ic r (p, c # cs, None) of
        [] \<Rightarrow> search_from ic r (Some c) cs
      | m # _ \<Rightarrow> Some m)"

definition re_search :: "bool \<Rightarrow> rx \<Rightarrow> string \<Rightarrow> mstate option" where
  "re_search ic r s = search_from ic r None s"

text \<open>\<^verbatim>\<open>match.group(1)\<close>, for a pattern whose group takes part in every match.\<close>

fun group1 :: "mstate \<Rightarrow> string" where
  "group1 (p, s, g) = (case g of None \<Rightarrow> [] | Some t \<Rightarrow> t)"

section \<open>The period filter\<close>

definition spaces :: cset where
  "spaces = Set [Sp]"

definition date_sep :: cset where
  "date_sep = Set [Ch CHR ''/'', Ch CHR ''-'']"

text \<open>
  \<^verbatim>\<open>Q4\s*2025\<close>,
  \<^verbatim>\<open>(?:31|30)\s*Dec(?:ember)?\s*2025\<close>,
  \<^verbatim>\<open>Dec(?:ember)?\s*(?:31|30),?\s*2025\<close>,
  \<^verbatim>\<open>12[/\-]31[/\-]2025\<close>,
  \<^verbatim>\<open>2025[/\-]12[/\-]31\<close>,
  \<^verbatim>\<open>Portfolio\s+date[:\s]+.*2025[/\-]12\<close>
\<close>

definition patterns :: "rx list" where
  "patterns =
     [Cat [Lit ''Q4'', Rep spaces 0 None, Lit ''2025''],
      Cat [Alt (Lit ''31'') (Lit ''30''), Rep spaces 0 None, Lit ''Dec'', Opt (Lit ''ember''),
           Rep spaces 0 None, Lit ''2025''],
      Cat [Lit ''Dec'', Opt (Lit ''ember''), Rep spaces 0 None, Alt (Lit ''31'') (Lit ''30''),
           Opt (Lit '',''), Rep spaces 0 None, Lit ''2025''],
      Cat [Lit ''12'', One date_sep, Lit ''31'', One date_sep, Lit ''2025''],
      Cat [Lit ''2025'', One date_sep, Lit ''12'', One date_sep, Lit ''31''],
      Cat [Lit ''Portfolio'', Rep spaces 1 None, Lit ''date'',
           Rep (Set [Ch CHR '':'', Sp]) 1 None, Rep Dot 0 None, Lit ''2025'', One date_sep,
           Lit ''12'']]"

definition is_q4_2025 :: "node \<Rightarrow> bool" where
  "is_q4_2025 soup =
     (let page_text = get_text '' '' soup
      in list_ex (\<lambda>pattern. re_search True pattern page_text \<noteq> None) patterns)"

section \<open>The table extractor\<close>

record holding =
  Manager :: string
  Stock :: string
  Ticker :: string
  Recent_Activity :: string
  Portfolio_Pct :: string
  Reported_Price :: string

definition has_id :: "string \<Rightarrow> node \<Rightarrow> bool" where
  "has_id i d = (attr_id (attrs_of d) = Some i)"

definition has_class :: "string \<Rightarrow> node \<Rightarrow> bool" where
  "has_class c d = (c \<in> set (attr_class (attrs_of d)))"

text \<open>The table \<^verbatim>\<open>#grid\<close>, else the first table of class \<^verbatim>\<open>holdings\<close>, else the first
  table whose first 200 characters of text contain \<^verbatim>\<open>Stock\<close> and \<^verbatim>\<open>Activity\<close>.\<close>

definition find_table :: "node \<Rightarrow> node option" where
  "find_table soup =
     (case find_first [''table''] (has_id ''grid'') soup of
        Some t \<Rightarrow> Some t
      | None \<Rightarrow>
          (case find_first [''table''] (has_class ''holdings'') soup of
             Some t \<Rightarrow> Some t
           | None \<Rightarrow>
               find (\<lambda>t. let header_text = take 200 (get_text '' '' t)
                         in str_in ''Stock'' header_text \<and> str_in ''Activity'' header_text)
                 (find_all [''table''] any_tag soup)))"

text \<open>One step of the loop over \<^verbatim>\<open>enumerate(headers)\<close>; \<open>col_map\<close> is the dictionary.\<close>

definition assign_col :: "(string \<rightharpoonup> nat) \<Rightarrow> nat \<times> string \<Rightarrow> (string \<rightharpoonup> nat)" where
  "assign_col col_map ih =
     (let i = fst ih; h = snd ih in
      if str_in ''stock'' h then col_map(''stock'' \<mapsto> i)
      else if str_in ''activity'' h then col_map(''activity'' \<mapsto> i)
      else if str_in ''portfolio'' h \<and> str_in ''%'' h then col_map(''portfolio_pct'' \<mapsto> i)
      else if str_in ''reported'' h \<or> (str_in ''price'' h \<and> str_in ''reported'' h)
        then col_map(''price'' \<mapsto> i)
      else if str_in ''price'' h \<and> col_map ''price'' = None then col_map(''price'' \<mapsto> i)
      else col_map)"

definition map_columns :: "string list \<Rightarrow> (string \<rightharpoonup> nat)" where
  "map_columns headers = foldl assign_col Map.empty (enumerate 0 headers)"

text \<open>\<^verbatim>\<open>col_map.get(key, default)\<close>\<close>

definition col_get :: "(string \<rightharpoonup> nat) \<Rightarrow> string \<Rightarrow> nat \<Rightarrow> nat" where
  "col_get col_map key dflt = (case col_map key of None \<Rightarrow> dflt | Some i \<Rightarrow> i)"

text \<open>The text of cell \<open>idx\<close>, or the empty string when the row has no such cell.\<close>

definition cell_text :: "node list \<Rightarrow> nat \<Rightarrow> string" where
  "cell_text cells idx = (if idx < length cells then get_text '' '' (cells ! idx) else [])"

text \<open>\<^verbatim>\<open>[?&]sym=([A-Z.]+)\<close>, searched with \<^verbatim>\<open>re.IGNORECASE\<close>.\<close>

definition sym_rx :: rx where
  "sym_rx = Cat [One (Set [Ch CHR ''?'', Ch CHR ''&'']), Lit ''sym='',
                 Grp (Rep (Set [Rng CHR ''A'' CHR ''Z'', Ch CHR ''.'']) 1 None)]"

text \<open>\<^verbatim>\<open>[-]\s*([A-Z]{1,5})\b\<close>, searched case-sensitively. The set of the source holds the
  en dash U+2013 beside the hyphen; the en dash is no ASCII character and has no
  counterpart here.\<close>

definition dash_rx :: rx where
  "dash_rx = Cat [One (Set [Ch CHR ''-'']), Rep spaces 0 None,
                  Grp (Rep (Set [Rng CHR ''A'' CHR ''Z'']) 1 (Some 5)), WordB]"

definition link_ticker :: "string \<Rightarrow> string" where
  "link_ticker link_href =
     (case re_search True sym_rx link_href of
        Some sym_match \<Rightarrow> str_upper (group1 sym_match)
      | None \<Rightarrow> [])"

text \<open>The stock text and the ticker read from the stock cell and its first link.\<close>

definition stock_fields :: "node list \<Rightarrow> nat \<Rightarrow> string \<times> string" where
  "stock_fields cells stock_idx =
     (if stock_idx < length cells then
        (let stock_cell = cells ! stock_idx in
         case find_first [''a''] any_tag stock_cell of
           None \<Rightarrow> (get_text '' '' stock_cell, [])
         | Some stock_link \<Rightarrow>
             (get_text '' '' stock_link,
              link_ticker (case attr_href (attrs_of stock_link) of None \<Rightarrow> [] | Some h \<Rightarrow> h)))
      else ([], []))"

definition text_ticker :: "string \<Rightarrow> string" where
  "text_ticker stock_text =
     (case re_search False dash_rx stock_text of
        Some ticker_match \<Rightarrow> group1 ticker_match
      | None \<Rightarrow> [])"

definition activity_ok :: "string \<Rightarrow> bool" where
  "activity_ok activity_text =
     (let activity_lower = str_lower activity_text
      in str_in ''buy'' activity_lower \<or> str_in ''add'' activity_lower)"

text \<open>The body of the loop over the data rows: \<open>None\<close> where the source says
  \<^verbatim>\<open>continue\<close>, the appended record otherwise.\<close>

definition parse_row :: "(string \<rightharpoonup> nat) \<Rightarrow> string \<Rightarrow> node \<Rightarrow> holding option" where
  "parse_row col_map manager_name row =
     (let cells = find_all [''td''] any_tag row in
      if length cells < 3 then None
      else
        let sf = stock_fields cells (col_get col_map ''stock'' 1);
            stock_text = fst sf;
            ticker = (if snd sf = [] then text_ticker stock_text else snd sf);
            activity_text = cell_text cells (col_get col_map ''activity'' 4)
        in
          if \<not> activity_ok activity_text then None
          else
            Some \<lparr>Manager = manager_name,
                  Stock = str_strip stock_text,
                  Ticker = ticker,
                  Recent_Activity = activity_text,
                  Portfolio_Pct = cell_text cells (col_get col_map ''portfolio_pct'' 2),
                  Reported_Price = cell_text cells (col_get col_map ''price'' 5)\<rparr>)"

definition header_texts :: "node \<Rightarrow> string list" where
  "header_texts header_row =
     map (\<lambda>th. str_lower (get_text '' '' th)) (find_all [''th'', ''td''] any_tag header_row)"

definition parse_table :: "node \<Rightarrow> string \<Rightarrow> holding list" where
  "parse_table table manager_name =
     (case find_first [''tr''] any_tag table of
        None \<Rightarrow> []
      | Some header_row \<Rightarrow>
          (let col_map = map_columns (header_texts header_row);
               rows = tl (find_all [''tr''] any_tag table)
           in List.map_filter (parse_row col_map manager_name) rows))"

definition parse_holdings :: "node \<Rightarrow> string \<Rightarrow> holding list" where
  "parse_holdings soup manager_name =
     (case find_table soup of
        None \<Rightarrow> []
      | Some table \<Rightarrow> parse_table table manager_name)"

section \<open>The index collector\<close>

definition BASE_URL :: string where
  "BASE_URL = ''https://www.dataroma.com''"

definition MANAGERS_URL :: string where
  "MANAGERS_URL = BASE_URL @ ''/m/managers.php''"

definition OUTPUT_FILE :: string where
  "OUTPUT_FILE = ''dataroma_q4_2025_buys.xlsx''"

text \<open>\<^verbatim>\<open>fetch_page\<close> answers with the parsed page, or with \<^verbatim>\<open>None\<close> when the request
  fails. The site is a function from the URL to that answer.\<close>

type_synonym site = "string \<Rightarrow> node option"

definition fetch_page :: "site \<Rightarrow> string \<Rightarrow> node option" where
  "fetch_page web u = web u"

datatype exit = SystemExit nat

record manager_ref =
  name :: string
  url :: string

definition href_of :: "node \<Rightarrow> string" where
  "href_of link = (case attr_href (attrs_of link) of None \<Rightarrow> [] | Some h \<Rightarrow> h)"

text \<open>\<^verbatim>\<open>soup.select("a[href*='holdings.php?m=']")\<close>\<close>

definition select_links :: "node \<Rightarrow> node list" where
  "select_links soup =
     find_all [''a'']
       (\<lambda>d. case attr_href (attrs_of d) of None \<Rightarrow> False | Some h \<Rightarrow> str_in ''holdings.php?m='' h)
       soup"

definition link_entry :: "node \<Rightarrow> manager_ref option" where
  "link_entry link =
     (let href = href_of link; nm = get_text [] link in
      if href = [] \<or> nm = [] then None
      else Some \<lparr>name = nm, url = (if prefix ''/'' href then BASE_URL @ href else href)\<rparr>)"

text \<open>The second loop of \<^verbatim>\<open>get_manager_links\<close>, with its set \<open>seen\<close> and its list
  \<open>unique\<close>.\<close>

fun dedup :: "string set \<Rightarrow> manager_ref list \<Rightarrow> manager_ref list \<Rightarrow> manager_ref list" where
  "dedup seen unique [] = unique"
| "dedup seen unique (m # managers) =
     (if url m \<notin> seen then dedup (insert (url m) seen) (unique @ [m]) managers
      else dedup seen unique managers)"

definition collect_links :: "node \<Rightarrow> manager_ref list" where
  "collect_links soup = dedup {} [] (List.map_filter link_entry (select_links soup))"

definition get_manager_links :: "site \<Rightarrow> exit + manager_ref list" where
  "get_manager_links web =
     (case fetch_page web MANAGERS_URL of
        None \<Rightarrow> Inl (SystemExit 1)
      | Some soup \<Rightarrow> Inr (collect_links soup))"

section \<open>The orchestrator\<close>

text \<open>The line printed for an entity, and the state of the loop of \<^verbatim>\<open>main\<close>: the three
  variables of the source, the delays slept so far and the lines printed so far.\<close>

datatype outcome = RequestFailed | NotQ4 | Found nat | NoBuys

record 'd crawl =
  all_records :: "holding list"
  q4_count :: nat
  skip_count :: nat
  slept :: "'d list"
  console :: "(string \<times> outcome) list"

definition start :: "'d crawl" where
  "start = \<lparr>all_records = [], q4_count = 0, skip_count = 0, slept = [], console = []\<rparr>"

text \<open>One pass of the loop body for the entity \<open>mgr\<close>; \<open>delay\<close> is the value drawn by
  \<^verbatim>\<open>random.uniform(1, 3)\<close>, which the source hands to \<^verbatim>\<open>time.sleep\<close> and to nothing else.\<close>

definition visit :: "site \<Rightarrow> 'd \<Rightarrow> 'd crawl \<Rightarrow> manager_ref \<Rightarrow> 'd crawl" where
  "visit web delay st mgr =
     (let st1 = st\<lparr>slept := slept st @ [delay]\<rparr> in
      case fetch_page web (url mgr) of
        None \<Rightarrow> st1\<lparr>console := console st1 @ [(name mgr, RequestFailed)]\<rparr>
      | Some soup \<Rightarrow>
          if \<not> is_q4_2025 soup then
            st1\<lparr>skip_count := skip_count st1 + 1,
                console := console st1 @ [(name mgr, NotQ4)]\<rparr>
          else
            (let records = parse_holdings soup (name mgr) in
             if records \<noteq> [] then
               st1\<lparr>all_records := all_records st1 @ records,
                   q4_count := q4_count st1 + 1,
                   console := console st1 @ [(name mgr, Found (length records))]\<rparr>
             else
               st1\<lparr>q4_count := q4_count st1 + 1,
                   console := console st1 @ [(name mgr, NoBuys)]\<rparr>))"

text \<open>The loop over \<^verbatim>\<open>enumerate(managers, 1)\<close>; \<open>rnd i\<close> is the delay drawn in pass \<open>i\<close>.\<close>

fun crawl_from :: "site \<Rightarrow> (nat \<Rightarrow> 'd) \<Rightarrow> nat \<Rightarrow> 'd crawl \<Rightarrow> manager_ref list \<Rightarrow> 'd crawl" where
  "crawl_from web rnd i st [] = st"
| "crawl_from web rnd i st (mgr # managers) =
     crawl_from web rnd (Suc i) (visit web (rnd i) st mgr) managers"

text \<open>The workbook handed to \<^verbatim>\<open>to_excel\<close>.\<close>

record workbook =
  file_name :: string
  sheet_name :: string
  header :: "string list"
  body :: "string list list"

text \<open>A record as the dictionary the source builds, keys in insertion order.\<close>

definition as_dict :: "holding \<Rightarrow> (string \<times> string) list" where
  "as_dict r =
     [(''Manager'', Manager r), (''Stock'', Stock r), (''Ticker'', Ticker r),
      (''Recent Activity'', Recent_Activity r), (''Portfolio %'', Portfolio_Pct r),
      (''Reported Price'', Reported_Price r)]"

definition columns :: "string list" where
  "columns = [''Manager'', ''Stock'', ''Ticker'', ''Recent Activity'',
              ''Portfolio %'', ''Reported Price'']"

text \<open>The data frame of the records, cut to \<^verbatim>\<open>[c for c in columns if c in df.columns]\<close>;
  \<open>df_columns\<close> are the keys that occur in the records.\<close>

definition to_excel :: "holding list \<Rightarrow> workbook" where
  "to_excel records =
     (let df_columns = set (concat (map (\<lambda>r. map fst (as_dict r)) records));
          cols = filter (\<lambda>c. c \<in> df_columns) columns
      in \<lparr>file_name = OUTPUT_FILE, sheet_name = ''Q4 2025 Buys'', header = cols,
          body = map (\<lambda>r. map (\<lambda>c. case map_of (as_dict r) c of None \<Rightarrow> [] | Some v \<Rightarrow> v) cols)
                   records\<rparr>)"

datatype report = Saved string | NoData

record 'd run =
  final :: "'d crawl"
  written :: "workbook list"
  last_line :: report

text \<open>\<^verbatim>\<open>main\<close>: \<open>Inl\<close> is \<^verbatim>\<open>sys.exit(1)\<close>, \<open>Inr\<close> a run that reaches its last line.\<close>

definition main :: "site \<Rightarrow> (nat \<Rightarrow> 'd) \<Rightarrow> exit + 'd run" where
  "main web rnd =
     (case get_manager_links web of
        Inl e \<Rightarrow> Inl e
      | Inr managers \<Rightarrow>
          if managers = [] then Inl (SystemExit 1)
          else
            (let st = crawl_from web rnd 1 start managers in
             if all_records st \<noteq> [] then
               Inr \<lparr>final = st, written = [to_excel (all_records st)],
                    last_line = Saved OUTPUT_FILE\<rparr>
             else Inr \<lparr>final = st, written = [], last_line = NoData\<rparr>))"

section \<open>Reference notions for the properties\<close>

text \<open>Deduplication by URL that keeps, of the entries with one URL, the first, in the
  order of the list: the description against which the loop \<open>dedup\<close> is checked.\<close>

fun first_seen :: "manager_ref list \<Rightarrow> manager_ref list" where
  "first_seen [] = []"
| "first_seen (m # rest) = m # first_seen (filter (\<lambda>x. url x \<noteq> url m) rest)"

text \<open>What a crawl shows apart from the time it took: the records, the two counters and
  the lines printed.\<close>

definition observe :: "'d crawl \<Rightarrow> holding list \<times> nat \<times> nat \<times> (string \<times> outcome) list" where
  "observe st = (all_records st, q4_count st, skip_count st, console st)"

section \<open>Sample pages\<close>

text \<open>Concrete documents on which the properties below are exercised.\<close>

definition text_page :: "string \<Rightarrow> node" where
  "text_page t = Tag ''[document]'' no_attrs [Tag ''p'' no_attrs [NavigableString t]]"

definition cell :: "string \<Rightarrow> string \<Rightarrow> node" where
  "cell t s = Tag t no_attrs [NavigableString s]"

definition anchor :: "string \<Rightarrow> string \<Rightarrow> node" where
  "anchor h s = Tag ''a'' (no_attrs\<lparr>attr_href := Some h\<rparr>) [NavigableString s]"

definition data_row :: "string list \<Rightarrow> node" where
  "data_row texts = Tag ''tr'' no_attrs (map (cell ''td'') texts)"

definition header_row_of :: "string list \<Rightarrow> node" where
  "header_row_of texts = Tag ''tr'' no_attrs (map (cell ''th'') texts)"

text \<open>The table of the spec's example, with any attributes on the table tag, and a page
  that holds it below a line naming the period.\<close>

definition apple_table :: "tag_attrs \<Rightarrow> node" where
  "apple_table a =
     Tag ''table'' a
       [header_row_of [''Stock'', ''Recent Activity'', ''Portfolio %'', ''Reported Price''],
        data_row [''Apple Inc - AAPL'', ''Buy'', ''5.2%'', ''$150.00'']]"

definition apple_page :: "tag_attrs \<Rightarrow> node" where
  "apple_page a =
     Tag ''[document]'' no_attrs [Tag ''p'' no_attrs [NavigableString ''Period: Q4 2025''],
                                  apple_table a]"

definition apple_record :: "string \<Rightarrow> holding" where
  "apple_record m =
     \<lparr>Manager = m, Stock = ''Apple Inc - AAPL'', Ticker = ''AAPL'', Recent_Activity = ''Buy'',
      Portfolio_Pct = ''5.2%'', Reported_Price = ''$150.00''\<rparr>"

text \<open>A table whose header cells are \<^verbatim>\<open>td\<close> cells that would pass the activity filter,
  with a two-cell row between two rows of holdings.\<close>

definition mixed_header :: node where
  "mixed_header = data_row [''Stock'', ''Activity (Buy/Add)'', ''Portfolio %'']"

definition mixed_table :: node where
  "mixed_table =
     Tag ''table'' no_attrs
       [mixed_header,
        data_row [''Apple Inc - AAPL'', ''Buy'', ''5.2%''],
        data_row [''Subtotal'', ''Buy''],
        data_row [''Microsoft Corp - MSFT'', ''Add 3.10%'', ''2.0%'']]"

definition mixed_cols :: "string \<rightharpoonup> nat" where
  "mixed_cols = [''stock'' \<mapsto> 0, ''activity'' \<mapsto> Suc 0, ''portfolio_pct'' \<mapsto> Suc (Suc 0)]"




text \<open>A site of three entities: one page of the period, one request that fails, one page
  of another period. The second link to the first entity is a duplicate.\<close>

definition sample_index :: node where
  "sample_index =
     Tag ''[document]'' no_attrs
       [anchor ''/m/holdings.php?m=BRK'' ''Warren Buffett'',
        anchor ''/m/holdings.php?m=AM'' ''Bill Ackman'',
        anchor ''/m/holdings.php?m=BRK'' ''Berkshire'',
        anchor ''/m/holdings.php?m=OLD'' ''Old Fund'']"

definition sample_site :: site where
  "sample_site u =
     (if u = ''https://www.dataroma.com/m/managers.php'' then Some sample_index
      else if u = ''https://www.dataroma.com/m/holdings.php?m=BRK'' then Some (apple_page no_attrs)
      else if u = ''https://www.dataroma.com/m/holdings.php?m=OLD'' then Some (text_page ''Q3 2025'')
      else None)"

definition sample_managers :: "manager_ref list" where
  "sample_managers =
     [\<lparr>name = ''Warren Buffett'', url = ''https://www.dataroma.com/m/holdings.php?m=BRK''\<rparr>,
      \<lparr>name = ''Bill Ackman'', url = ''https://www.dataroma.com/m/holdings.php?m=AM''\<rparr>,
      \<lparr>name = ''Old Fund'', url = ''https://www.dataroma.com/m/holdings.php?m=OLD''\<rparr>]"


text \<open>A listing whose only link to a detail page wraps an image and has no text.\<close>

definition blank_link_page :: node where
  "blank_link_page =
     Tag ''[document]'' no_attrs
       [Tag ''a'' (no_attrs\<lparr>attr_href := Some ''/m/holdings.php?m=BRK''\<rparr>)
          [Tag ''img'' no_attrs []]]"

section \<open>Facts about strings and matching\<close>

lemmas char_defs = lower_char_def upper_char_def ascii_uppercase_def ascii_lowercase_def
  is_space_def whitespace_def is_word_def digits_def word_before_def word_at_def
  spaces_def date_sep_def in_range_def

lemma str_in_iff: "str_in sub s \<longleftrightarrow> (\<exists>a b. s = a @ sub @ b)"
proof (induction s)
  case Nil
  show ?case by auto
next
  case (Cons c cs)
  show ?case
  proof
    assume "str_in sub (c # cs)"
    then consider "prefix sub (c # cs)" | "str_in sub cs" by auto
    then show "\<exists>a b. c # cs = a @ sub @ b"
    proof cases
      case 1
      then obtain b where "c # cs = sub @ b" by (auto simp: prefix_def)
      then have "c # cs = [] @ sub @ b" by simp
      then show ?thesis by blast
    next
      case 2
      with Cons obtain a b where "cs = a @ sub @ b" by blast
      then have "c # cs = (c # a) @ sub @ b" by simp
      then show ?thesis by blast
    qed
  next
    assume "\<exists>a b. c # cs = a @ sub @ b"
    then obtain a b where ab: "c # cs = a @ sub @ b" by blast
    show "str_in sub (c # cs)"
    proof (cases a)
      case Nil
      with ab have "prefix sub (c # cs)" by (simp add: prefix_def)
      then show ?thesis by simp
    next
      case (Cons x a')
      with ab have "cs = a' @ sub @ b" by simp
      with Cons.IH have "str_in sub cs" by blast
      then show ?thesis by simp
    qed
  qed
qed

text \<open>A pattern that matches at some position, whatever precedes it, is found by the
  search.\<close>

lemma search_from_hit:
  "(\<And>p. ms ic r (p, s2, None) \<noteq> []) \<Longrightarrow> search_from ic r p (a @ s2) \<noteq> None"
proof (induction a arbitrary: p)
  case Nil
  have "ms ic r (p, s2, None) \<noteq> []" by (rule Nil)
  then show ?case by (cases s2) (auto split: list.splits)
next
  case (Cons c a)
  have "search_from ic r (Some c) (a @ s2) \<noteq> None" by (rule Cons.IH) (rule Cons.prems)
  then show ?case by (auto split: list.splits)
qed

lemma re_search_hit:
  assumes "str_in lit s" and "\<And>p b. ms ic r (p, lit @ b, None) \<noteq> []"
  shows "re_search ic r s \<noteq> None"
proof -
  from assms(1) obtain a b where "s = a @ lit @ b" by (auto simp: str_in_iff)
  then show ?thesis unfolding re_search_def using search_from_hit [OF assms(2)] by simp
qed

section \<open>The period filter accepts the five spellings of the date\<close>

lemma hit_quarter: "ms True (patterns ! 0) (p, ''Q4 2025'' @ b, None) \<noteq> []"
  by (simp add: patterns_def char_defs)

lemma hit_day_month: "ms True (patterns ! 1) (p, ''31 Dec 2025'' @ b, None) \<noteq> []"
  by (simp add: patterns_def char_defs)

lemma hit_month_day: "ms True (patterns ! 2) (p, ''December 31, 2025'' @ b, None) \<noteq> []"
  by (simp add: patterns_def char_defs)

lemma hit_slashes: "ms True (patterns ! 3) (p, ''12/31/2025'' @ b, None) \<noteq> []"
  by (simp add: patterns_def char_defs)

lemma hit_iso: "ms True (patterns ! 4) (p, ''2025-12-31'' @ b, None) \<noteq> []"
  by (simp add: patterns_def char_defs)

lemma nth_pattern: "k < length patterns \<Longrightarrow> re_search True (patterns ! k) t \<noteq> None \<Longrightarrow>
    list_ex (\<lambda>pattern. re_search True pattern t \<noteq> None) patterns"
  unfolding list_ex_iff using nth_mem by blast

lemma length_patterns: "length patterns = 6"
  by (simp add: patterns_def)

lemma miss_q3: "\<not> list_ex (\<lambda>pattern. re_search True pattern ''Q3 2025'' \<noteq> None) patterns"
  by (simp add: patterns_def char_defs re_search_def)

lemma miss_2024: "\<not> list_ex (\<lambda>pattern. re_search True pattern ''12/31/2024'' \<noteq> None) patterns"
  by (simp add: patterns_def char_defs re_search_def)

text \<open>
  Claim C2. The period filter returns true for every page whose text contains
  \<^verbatim>\<open>Q4 2025\<close>, \<^verbatim>\<open>31 Dec 2025\<close>, \<^verbatim>\<open>December 31, 2025\<close>, \<^verbatim>\<open>12/31/2025\<close> or \<^verbatim>\<open>2025-12-31\<close>,
  whatever else the text holds, and false for a page whose text is \<^verbatim>\<open>Q3 2025\<close> or is
  \<^verbatim>\<open>12/31/2024\<close>.
\<close>

theorem is_q4_2025_spellings:
  "(str_in ''Q4 2025'' (get_text '' '' soup) \<or> str_in ''31 Dec 2025'' (get_text '' '' soup) \<or>
    str_in ''December 31, 2025'' (get_text '' '' soup) \<or>
    str_in ''12/31/2025'' (get_text '' '' soup) \<or> str_in ''2025-12-31'' (get_text '' '' soup)
      \<longrightarrow> is_q4_2025 soup) \<and>
   (get_text '' '' other = ''Q3 2025'' \<or> get_text '' '' other = ''12/31/2024''
      \<longrightarrow> \<not> is_q4_2025 other)"
proof (intro conjI impI)
  let ?t = "get_text '' '' soup"
  assume "str_in ''Q4 2025'' ?t \<or> str_in ''31 Dec 2025'' ?t \<or> str_in ''December 31, 2025'' ?t \<or>
    str_in ''12/31/2025'' ?t \<or> str_in ''2025-12-31'' ?t"
  then consider "str_in ''Q4 2025'' ?t" | "str_in ''31 Dec 2025'' ?t"
    | "str_in ''December 31, 2025'' ?t" | "str_in ''12/31/2025'' ?t" | "str_in ''2025-12-31'' ?t"
    by blast
  then have "list_ex (\<lambda>pattern. re_search True pattern ?t \<noteq> None) patterns"
  proof cases
    case 1
    then have "re_search True (patterns ! 0) ?t \<noteq> None" by (rule re_search_hit) (rule hit_quarter)
    then show ?thesis by (rule nth_pattern [rotated]) (simp add: length_patterns)
  next
    case 2
    then have "re_search True (patterns ! 1) ?t \<noteq> None" by (rule re_search_hit) (rule hit_day_month)
    then show ?thesis by (rule nth_pattern [rotated]) (simp add: length_patterns)
  next
    case 3
    then have "re_search True (patterns ! 2) ?t \<noteq> None" by (rule re_search_hit) (rule hit_month_day)
    then show ?thesis by (rule nth_pattern [rotated]) (simp add: length_patterns)
  next
    case 4
    then have "re_search True (patterns ! 3) ?t \<noteq> None" by (rule re_search_hit) (rule hit_slashes)
    then show ?thesis by (rule nth_pattern [rotated]) (simp add: length_patterns)
  next
    case 5
    then have "re_search True (patterns ! 4) ?t \<noteq> None" by (rule re_search_hit) (rule hit_iso)
    then show ?thesis by (rule nth_pattern [rotated]) (simp add: length_patterns)
  qed
  then show "is_q4_2025 soup" by (simp add: is_q4_2025_def)
next
  assume "get_text '' '' other = ''Q3 2025'' \<or> get_text '' '' other = ''12/31/2024''"
  then show "\<not> is_q4_2025 other"
    unfolding is_q4_2025_def Let_def using miss_q3 miss_2024 by auto
qed

lemma get_text_text_page: "get_text sep (text_page t) = (if str_strip t = [] then [] else str_strip t)"
  by (simp add: get_text_def text_page_def)

theorem is_q4_2025_spellings_witness:
  "is_q4_2025 (text_page ''Period: Q4 2025'') \<and>
   is_q4_2025 (text_page ''Portfolio date: 31 Dec 2025'') \<and>
   is_q4_2025 (text_page ''as of December 31, 2025.'') \<and>
   is_q4_2025 (text_page ''12/31/2025'') \<and>
   is_q4_2025 (text_page ''[2025-12-31]'') \<and>
   \<not> is_q4_2025 (text_page ''Q3 2025'') \<and>
   \<not> is_q4_2025 (text_page ''12/31/2024'')"
  using is_q4_2025_spellings [of "text_page ''Period: Q4 2025''" "text_page ''Q3 2025''"]
    is_q4_2025_spellings [of "text_page ''Portfolio date: 31 Dec 2025''" "text_page ''12/31/2024''"]
    is_q4_2025_spellings [of "text_page ''as of December 31, 2025.''" "text_page ''Q3 2025''"]
    is_q4_2025_spellings [of "text_page ''12/31/2025''" "text_page ''Q3 2025''"]
    is_q4_2025_spellings [of "text_page ''[2025-12-31]''" "text_page ''Q3 2025''"]
  by (simp add: get_text_text_page str_strip_def is_space_def whitespace_def)

lemma is_q4_2025_quarter: "str_in ''Q4 2025'' (get_text '' '' soup) \<Longrightarrow> is_q4_2025 soup"
proof -
  assume "str_in ''Q4 2025'' (get_text '' '' soup)"
  then have "re_search True (patterns ! 0) (get_text '' '' soup) \<noteq> None"
    by (rule re_search_hit) (rule hit_quarter)
  then have "list_ex (\<lambda>pattern. re_search True pattern (get_text '' '' soup) \<noteq> None) patterns"
    by (rule nth_pattern [rotated]) (simp add: length_patterns)
  then show ?thesis by (simp add: is_q4_2025_def)
qed

lemma not_q4_q3_page: "\<not> is_q4_2025 (text_page ''Q3 2025'')"
  using miss_q3
  by (simp add: is_q4_2025_def get_text_text_page str_strip_def is_space_def whitespace_def)

section \<open>Facts about characters\<close>

lemma in_range_upper: "in_range CHR ''A'' CHR ''Z'' c \<longleftrightarrow> c \<in> set ascii_uppercase"
proof
  assume a: "in_range CHR ''A'' CHR ''Z'' c"
  have codes: "map (of_char :: char \<Rightarrow> nat) ascii_uppercase = [65..<91]"
    unfolding ascii_uppercase_def by (simp add: upt_rec)
  from a have "(of_char c :: nat) \<in> {65..<91}" by (auto simp: in_range_def)
  then have "(of_char c :: nat) \<in> set [65..<91]" by (simp only: set_upt)
  then have "(of_char c :: nat) \<in> of_char ` set ascii_uppercase" using codes by (metis set_map)
  then obtain d where "d \<in> set ascii_uppercase" "(of_char c :: nat) = of_char d" by blast
  then show "c \<in> set ascii_uppercase" by simp
next
  assume "c \<in> set ascii_uppercase"
  then show "in_range CHR ''A'' CHR ''Z'' c"
    unfolding ascii_uppercase_def in_range_def by (elim set_ConsD [THEN disjE], simp_all)
qed

lemma upper_char_upper: "c \<in> set ascii_uppercase \<Longrightarrow> upper_char c = c"
  unfolding ascii_uppercase_def ascii_lowercase_def upper_char_def
  by (elim set_ConsD [THEN disjE], simp_all)

lemma upper_char_lower: "c \<in> set ascii_lowercase \<Longrightarrow> upper_char c \<in> set ascii_uppercase"
  unfolding ascii_uppercase_def ascii_lowercase_def upper_char_def
  by (elim set_ConsD [THEN disjE], simp_all)

lemma lower_char_other: "c \<notin> set ascii_uppercase \<Longrightarrow> lower_char c = c"
proof -
  assume "c \<notin> set ascii_uppercase"
  then have "map_of (zip ascii_uppercase ascii_lowercase) c = None"
    by (simp add: map_of_eq_None_iff ascii_uppercase_def ascii_lowercase_def)
  then show ?thesis by (simp add: lower_char_def)
qed

lemma upper_char_other: "c \<notin> set ascii_lowercase \<Longrightarrow> upper_char c = c"
proof -
  assume "c \<notin> set ascii_lowercase"
  then have "map_of (zip ascii_lowercase ascii_uppercase) c = None"
    by (simp add: map_of_eq_None_iff ascii_uppercase_def ascii_lowercase_def)
  then show ?thesis by (simp add: upper_char_def)
qed

lemma dot_no_letter: "CHR ''.'' \<notin> set ascii_lowercase" "CHR ''.'' \<notin> set ascii_uppercase"
  by (simp_all add: ascii_uppercase_def ascii_lowercase_def)

text \<open>What the set of the symbol pattern admits, once upper-cased.\<close>

lemma sym_char_upper:
  assumes "cset_ok True (Set [Rng CHR ''A'' CHR ''Z'', Ch CHR ''.'']) c"
  shows "upper_char c \<in> set ascii_uppercase \<union> {CHR ''.''}"
proof (cases "c \<in> set ascii_uppercase")
  case True
  then show ?thesis by (simp add: upper_char_upper)
next
  case False
  then have lc: "lower_char c = c" by (rule lower_char_other)
  show ?thesis
  proof (cases "c \<in> set ascii_lowercase")
    case True
    then show ?thesis by (simp add: upper_char_lower)
  next
    case nl: False
    then have uc: "upper_char c = c" by (rule upper_char_other)
    have "lower_char CHR ''.'' = CHR ''.''" using dot_no_letter by (simp add: lower_char_other)
    with assms lc uc False have "c = CHR ''.''" by (auto simp: in_range_upper)
    with uc show ?thesis by simp
  qed
qed

lemma dash_char_upper:
  "cset_ok False (Set [Rng CHR ''A'' CHR ''Z'']) c \<longleftrightarrow> c \<in> set ascii_uppercase"
  by (simp add: in_range_upper)

lemma str_lower_in: "str_in v t \<Longrightarrow> str_in (str_lower v) (str_lower t)"
proof -
  assume "str_in v t"
  then obtain a b where "t = a @ v @ b" by (auto simp: str_in_iff)
  then have "str_lower t = str_lower a @ str_lower v @ str_lower b" by (simp add: str_lower_def)
  then show ?thesis unfolding str_in_iff by blast
qed

section \<open>Facts about the matcher\<close>

lemma set_map_filter: "set (List.map_filter f xs) = {y. \<exists>x\<in>set xs. f x = Some y}"
  by (induction xs) (auto split: option.splits)

lemma map_filter_append:
  "List.map_filter f (xs @ ys) = List.map_filter f xs @ List.map_filter f ys"
  by (induction xs) (auto split: option.splits)

lemma counts_set: "k \<in> set (counts lo m) \<longleftrightarrow> lo \<le> k \<and> k \<le> m"
  by (induction m) auto

lemma take_run: "k \<le> length (takeWhile P s) \<Longrightarrow> \<forall>c\<in>set (take k s). P c"
proof -
  assume k: "k \<le> length (takeWhile P s)"
  have "take k s = take k (takeWhile P s @ dropWhile P s)" by simp
  also have "\<dots> = take k (takeWhile P s)" using k by (simp only: take_append) simp
  finally have "set (take k s) \<subseteq> set (takeWhile P s)" using set_take_subset by metis
  then show ?thesis using set_takeWhileD by fastforce
qed

text \<open>A group around a repetition captures between \<open>lo\<close> and \<open>hi\<close> characters of the set.\<close>

lemma group_rep:
  assumes "st' \<in> set (ms ic (Grp (Rep cs lo hi)) st)"
  shows "\<exists>p' s' t. st' = (p', s', Some t) \<and> (\<forall>c\<in>set t. cset_ok ic cs c) \<and> lo \<le> length t \<and>
           (\<forall>h. hi = Some h \<longrightarrow> length t \<le> h)"
proof -
  obtain p s g where st: "st = (p, s, g)" by (cases st)
  let ?run = "takeWhile (cset_ok ic cs) s"
  let ?m = "length (case hi of None \<Rightarrow> ?run | Some h \<Rightarrow> take h ?run)"
  from assms have "\<exists>k p'. k \<in> set (counts lo ?m) \<and>
      st' = (p', drop k s, Some (take (length s - length (drop k s)) s))"
    unfolding st by (auto simp: Let_def)
  then obtain k p' where k: "k \<in> set (counts lo ?m)"
    and st': "st' = (p', drop k s, Some (take (length s - length (drop k s)) s))"
    by blast
  from k have lo: "lo \<le> k" and km: "k \<le> ?m" by (simp_all add: counts_set)
  have mr: "?m \<le> length ?run" by (simp split: option.splits)
  have rs: "length ?run \<le> length s" by (simp add: length_takeWhile_le)
  from km mr rs have ks: "k \<le> length s" by linarith
  then have t: "take (length s - length (drop k s)) s = take k s" by simp
  from km mr have "k \<le> length ?run" by linarith
  then have "\<forall>c\<in>set (take k s). cset_ok ic cs c" by (rule take_run)
  moreover have "length (take k s) = k" using ks by simp
  moreover have "\<forall>h. hi = Some h \<longrightarrow> k \<le> h" using km by auto
  ultimately show ?thesis using st' t lo by auto
qed

lemma search_from_result:
  "search_from ic r p s = Some st \<Longrightarrow> \<exists>p' s'. st \<in> set (ms ic r (p', s', None))"
proof (induction s arbitrary: p)
  case Nil
  then have "st \<in> set (ms ic r (p, [], None))" by (cases "ms ic r (p, [], None)") auto
  then show ?case by blast
next
  case (Cons c cs)
  show ?case
  proof (cases "ms ic r (p, c # cs, None)")
    case Nil
    with Cons.prems have "search_from ic r (Some c) cs = Some st" by simp
    then show ?thesis by (rule Cons.IH)
  next
    case (Cons m rest)
    with Cons.prems have "st = m" by simp
    with Cons have "st \<in> set (ms ic r (p, c # cs, None))" by simp
    then show ?thesis by blast
  qed
qed

lemma ms_Cat_Cons:
  "st' \<in> set (ms ic (Cat (r # rs)) st) \<longleftrightarrow> (\<exists>mid\<in>set (ms ic r st). st' \<in> set (ms ic (Cat rs) mid))"
  by auto

lemma ms_WordB: "st' \<in> set (ms ic WordB st) \<Longrightarrow> st' = st"
  by (cases st) (auto split: if_splits)

lemma sym_rx_group:
  assumes "st \<in> set (ms True sym_rx st0)"
  shows "\<exists>p' s' t. st = (p', s', Some t) \<and>
     (\<forall>c\<in>set t. cset_ok True (Set [Rng CHR ''A'' CHR ''Z'', Ch CHR ''.'']) c) \<and> 1 \<le> length t"
proof -
  from assms obtain st2 :: mstate and st3 :: mstate where
    "st3 \<in> set (ms True (Grp (Rep (Set [Rng CHR ''A'' CHR ''Z'', Ch CHR ''.'']) 1 None)) st2)"
    "st \<in> set (ms True (Cat []) st3)"
    unfolding sym_rx_def ms_Cat_Cons by blast
  then have "st \<in> set (ms True (Grp (Rep (Set [Rng CHR ''A'' CHR ''Z'', Ch CHR ''.'']) 1 None)) st2)"
    by simp
  from group_rep [OF this] show ?thesis by blast
qed

lemma dash_rx_group:
  assumes "st \<in> set (ms False dash_rx st0)"
  shows "\<exists>p' s' t. st = (p', s', Some t) \<and>
     (\<forall>c\<in>set t. cset_ok False (Set [Rng CHR ''A'' CHR ''Z'']) c) \<and> 1 \<le> length t \<and> length t \<le> 5"
proof -
  from assms obtain st2 :: mstate and st3 :: mstate and st4 :: mstate where
    g: "st3 \<in> set (ms False (Grp (Rep (Set [Rng CHR ''A'' CHR ''Z'']) 1 (Some 5))) st2)"
    and w: "st4 \<in> set (ms False WordB st3)" and e: "st \<in> set (ms False (Cat []) st4)"
    unfolding dash_rx_def ms_Cat_Cons by blast
  from w e have "st = st3" by (auto dest: ms_WordB)
  with group_rep [OF g] show ?thesis by blast
qed

section \<open>Facts about the ticker\<close>

lemma link_ticker_chars: "set (link_ticker h) \<subseteq> set ascii_uppercase \<union> {CHR ''.''}"
proof (cases "re_search True sym_rx h")
  case None
  then show ?thesis by (simp add: link_ticker_def)
next
  case (Some st)
  then obtain p' s' where "st \<in> set (ms True sym_rx (p', s', None))"
    unfolding re_search_def by (blast dest: search_from_result)
  from sym_rx_group [OF this] obtain p2 s2 t where st: "st = (p2, s2, Some t)"
    and t: "\<forall>c\<in>set t. cset_ok True (Set [Rng CHR ''A'' CHR ''Z'', Ch CHR ''.'']) c" by blast
  have "link_ticker h = map upper_char t" using Some st by (simp add: link_ticker_def str_upper_def)
  moreover have "\<forall>c\<in>set t. upper_char c \<in> set ascii_uppercase \<union> {CHR ''.''}"
    using t sym_char_upper by blast
  ultimately show ?thesis by auto
qed

lemma text_ticker_chars:
  "set (text_ticker s) \<subseteq> set ascii_uppercase \<and> length (text_ticker s) \<le> 5"
proof (cases "re_search False dash_rx s")
  case None
  then show ?thesis by (simp add: text_ticker_def)
next
  case (Some st)
  then obtain p' s' where "st \<in> set (ms False dash_rx (p', s', None))"
    unfolding re_search_def by (blast dest: search_from_result)
  from dash_rx_group [OF this] obtain p2 s2 t where st: "st = (p2, s2, Some t)"
    and t: "\<forall>c\<in>set t. cset_ok False (Set [Rng CHR ''A'' CHR ''Z'']) c" and l: "length t \<le> 5"
    by blast
  have "text_ticker s = t" using Some st by (simp add: text_ticker_def)
  moreover have "\<forall>c\<in>set t. c \<in> set ascii_uppercase" using t dash_char_upper by blast
  ultimately show ?thesis using l by auto
qed

lemma stock_fields_ticker:
  "set (snd (stock_fields cells i)) \<subseteq> set ascii_uppercase \<union> {CHR ''.''}"
  using link_ticker_chars by (auto simp: stock_fields_def Let_def split: option.splits)

section \<open>Facts about the rows\<close>

lemma parse_row_Some:
  assumes "parse_row col_map m row = Some r"
  shows "activity_ok (Recent_Activity r)"
    and "3 \<le> length (find_all [''td''] any_tag row)"
    and "Manager r = m"
    and "set (Ticker r) \<subseteq> set ascii_uppercase \<union> {CHR ''.''}"
    and "Recent_Activity r = cell_text (find_all [''td''] any_tag row) (col_get col_map ''activity'' 4)"
proof -
  let ?cells = "find_all [''td''] any_tag row"
  let ?sf = "stock_fields ?cells (col_get col_map ''stock'' 1)"
  show "activity_ok (Recent_Activity r)" using assms
    by (auto simp: parse_row_def Let_def split: if_splits)
  show "3 \<le> length ?cells" using assms
    by (auto simp: parse_row_def Let_def split: if_splits)
  show "Manager r = m" using assms
    by (auto simp: parse_row_def Let_def split: if_splits)
  show "Recent_Activity r = cell_text ?cells (col_get col_map ''activity'' 4)" using assms
    by (auto simp: parse_row_def Let_def split: if_splits)
  have "Ticker r = text_ticker (fst ?sf) \<or> Ticker r = snd ?sf" using assms
    by (auto simp: parse_row_def Let_def split: if_splits)
  moreover have "set (text_ticker (fst ?sf)) \<subseteq> set ascii_uppercase \<union> {CHR ''.''}"
    using text_ticker_chars by blast
  moreover have "set (snd ?sf) \<subseteq> set ascii_uppercase \<union> {CHR ''.''}"
    by (rule stock_fields_ticker)
  ultimately show "set (Ticker r) \<subseteq> set ascii_uppercase \<union> {CHR ''.''}" by auto
qed

lemma parse_row_short: "length (find_all [''td''] any_tag row) < 3 \<Longrightarrow> parse_row col_map m row = None"
  by (simp add: parse_row_def Let_def)

lemma parse_row_rejected:
  "\<not> activity_ok (cell_text (find_all [''td''] any_tag row) (col_get col_map ''activity'' 4)) \<Longrightarrow>
     parse_row col_map m row = None"
  by (simp add: parse_row_def Let_def)

lemma parse_row_accepted:
  "3 \<le> length (find_all [''td''] any_tag row) \<Longrightarrow>
   activity_ok (cell_text (find_all [''td''] any_tag row) (col_get col_map ''activity'' 4)) \<Longrightarrow>
     \<exists>h. parse_row col_map m row = Some h \<and>
         Recent_Activity h = cell_text (find_all [''td''] any_tag row) (col_get col_map ''activity'' 4)"
  by (simp add: parse_row_def Let_def)

lemma parse_holdings_rows:
  assumes "r \<in> set (parse_holdings soup m)"
  shows "\<exists>col_map row. parse_row col_map m row = Some r"
  using assms
  by (auto simp: parse_holdings_def parse_table_def Let_def set_map_filter
      split: option.splits)

lemma parse_table_rows:
  "find_all [''tr''] any_tag table = header_row # rows \<Longrightarrow>
     parse_table table m = List.map_filter (parse_row (map_columns (header_texts header_row)) m) rows"
  by (simp add: parse_table_def find_first_def Let_def)

section \<open>The sample tables, evaluated\<close>

lemmas dom_defs = find_all_def find_first_def any_tag_def get_text_def str_strip_def cell_def
  no_attrs_def anchor_def data_row_def header_row_of_def is_space_def whitespace_def

lemmas lower_defs = str_lower_def lower_char_def ascii_uppercase_def ascii_lowercase_def

lemma find_table_apple: "find_table (apple_page a) = Some (apple_table a)"
  by (simp add: find_table_def apple_page_def apple_table_def dom_defs has_id_def has_class_def)

lemma apple_cols:
  "map_columns (header_texts
      (header_row_of [''Stock'', ''Recent Activity'', ''Portfolio %'', ''Reported Price''])) =
   [''stock'' \<mapsto> 0, ''activity'' \<mapsto> Suc 0, ''portfolio_pct'' \<mapsto> Suc (Suc 0),
    ''price'' \<mapsto> Suc (Suc (Suc 0))]"
  by (simp add: header_texts_def map_columns_def assign_col_def dom_defs lower_defs
      enumerate_eq_zip upt_rec)

lemma text_ticker_apple: "text_ticker ''Apple Inc - AAPL'' = ''AAPL''"
  by (simp add: text_ticker_def dash_rx_def re_search_def char_defs)

lemma text_ticker_msft: "text_ticker ''Microsoft Corp - MSFT'' = ''MSFT''"
  by (simp add: text_ticker_def dash_rx_def re_search_def char_defs)



lemma apple_row:
  "parse_row [''stock'' \<mapsto> 0, ''activity'' \<mapsto> Suc 0, ''portfolio_pct'' \<mapsto> Suc (Suc 0),
              ''price'' \<mapsto> Suc (Suc (Suc 0))] m
     (data_row [''Apple Inc - AAPL'', ''Buy'', ''5.2%'', ''$150.00'']) = Some (apple_record m)"
  by (simp add: parse_row_def stock_fields_def cell_text_def col_get_def activity_ok_def
      dom_defs lower_defs text_ticker_apple apple_record_def)

lemma apple_rows:
  "find_all [''tr''] any_tag (apple_table a) =
     [header_row_of [''Stock'', ''Recent Activity'', ''Portfolio %'', ''Reported Price''],
      data_row [''Apple Inc - AAPL'', ''Buy'', ''5.2%'', ''$150.00'']]"
  by (simp add: apple_table_def dom_defs)

lemma apple_records: "parse_holdings (apple_page a) m = [apple_record m]"
  unfolding parse_holdings_def find_table_apple
  by (simp add: parse_table_rows [OF apple_rows] apple_cols apple_row)

lemma mixed_rows:
  "find_all [''tr''] any_tag mixed_table =
     mixed_header # [data_row [''Apple Inc - AAPL'', ''Buy'', ''5.2%'']] @
       data_row [''Subtotal'', ''Buy''] # [data_row [''Microsoft Corp - MSFT'', ''Add 3.10%'', ''2.0%'']]"
  by (simp add: mixed_table_def mixed_header_def dom_defs)

lemma mixed_header_cols: "map_columns (header_texts mixed_header) = mixed_cols"
  by (simp add: header_texts_def map_columns_def assign_col_def mixed_header_def mixed_cols_def
      dom_defs lower_defs enumerate_eq_zip upt_rec)

lemma mixed_row_apple:
  "parse_row mixed_cols m (data_row [''Apple Inc - AAPL'', ''Buy'', ''5.2%'']) =
     Some \<lparr>Manager = m, Stock = ''Apple Inc - AAPL'', Ticker = ''AAPL'', Recent_Activity = ''Buy'',
           Portfolio_Pct = ''5.2%'', Reported_Price = []\<rparr>"
  by (simp add: parse_row_def stock_fields_def cell_text_def col_get_def activity_ok_def
      mixed_cols_def dom_defs lower_defs text_ticker_apple)

lemma mixed_row_msft:
  "parse_row mixed_cols m (data_row [''Microsoft Corp - MSFT'', ''Add 3.10%'', ''2.0%'']) =
     Some \<lparr>Manager = m, Stock = ''Microsoft Corp - MSFT'', Ticker = ''MSFT'',
           Recent_Activity = ''Add 3.10%'', Portfolio_Pct = ''2.0%'', Reported_Price = []\<rparr>"
  by (simp add: parse_row_def stock_fields_def cell_text_def col_get_def activity_ok_def
      mixed_cols_def dom_defs lower_defs text_ticker_msft)

lemma mixed_row_sell:
  "cell_text (find_all [''td''] any_tag (data_row [''Tesla Inc - TSLA'', ''Sell'', ''1.0%'']))
      (col_get mixed_cols ''activity'' 4) = ''Sell''"
  by (simp add: cell_text_def col_get_def mixed_cols_def dom_defs)

lemma mixed_row_upper:
  "cell_text (find_all [''td''] any_tag (data_row [''Tesla Inc - TSLA'', ''BUY 4%'', ''1.0%'']))
      (col_get mixed_cols ''activity'' 4) = ''BUY 4%''"
   "length (find_all [''td''] any_tag (data_row [''Tesla Inc - TSLA'', ''BUY 4%'', ''1.0%''])) = 3"
  by (simp_all add: cell_text_def col_get_def mixed_cols_def dom_defs)

lemma mixed_short: "length (find_all [''td''] any_tag (data_row [''Subtotal'', ''Buy''])) = 2"
  by (simp add: dom_defs)

lemma mixed_header_as_row: "parse_row mixed_cols m mixed_header \<noteq> None"
  by (simp add: parse_row_def stock_fields_def cell_text_def col_get_def activity_ok_def
      mixed_cols_def mixed_header_def dom_defs lower_defs Let_def)





section \<open>The table extractor: the spec's example\<close>

text \<open>
  Claim C3. For the table with the header row Stock, Recent Activity, Portfolio %,
  Reported Price and the one data row \<^verbatim>\<open>Apple Inc - AAPL\<close>, \<^verbatim>\<open>Buy\<close>, \<^verbatim>\<open>5.2%\<close>,
  \<^verbatim>\<open>$150.00\<close>, whatever the attributes of the table tag (so whichever of the three ways
  locates it), \<open>parse_holdings\<close> returns exactly one record, with ticker \<^verbatim>\<open>AAPL\<close>,
  portfolio share \<^verbatim>\<open>5.2%\<close>, the stock text, the activity and the price of the row.
\<close>

theorem parse_holdings_apple_example:
  "parse_holdings (apple_page a) m =
     [\<lparr>Manager = m, Stock = ''Apple Inc - AAPL'', Ticker = ''AAPL'', Recent_Activity = ''Buy'',
       Portfolio_Pct = ''5.2%'', Reported_Price = ''$150.00''\<rparr>]"
  by (simp add: apple_records apple_record_def)

theorem parse_holdings_apple_example_witness:
  "parse_holdings (apple_page (no_attrs\<lparr>attr_id := Some ''grid''\<rparr>)) ''Warren Buffett'' =
     [\<lparr>Manager = ''Warren Buffett'', Stock = ''Apple Inc - AAPL'', Ticker = ''AAPL'',
       Recent_Activity = ''Buy'', Portfolio_Pct = ''5.2%'', Reported_Price = ''$150.00''\<rparr>] \<and>
   length (parse_holdings (apple_page no_attrs) ''Warren Buffett'') = 1"
  using parse_holdings_apple_example [of "no_attrs\<lparr>attr_id := Some ''grid''\<rparr>" "''Warren Buffett''"]
    parse_holdings_apple_example [of no_attrs "''Warren Buffett''"]
  by simp

section \<open>The activity filter\<close>

text \<open>
  Claim C1. Every record that \<open>parse_holdings\<close> returns has a Recent Activity whose
  lower-cased text contains \<^verbatim>\<open>buy\<close> or \<^verbatim>\<open>add\<close>. For every row: when the lower-cased text of
  its activity cell contains neither, the row yields no record; when the text contains
  \<^verbatim>\<open>Buy\<close> or \<^verbatim>\<open>Add\<close> in some letter case \<open>v\<close> and the row has at least three cells, the row
  yields a record, which carries that text.
\<close>

theorem activity_filter:
  "(r \<in> set (parse_holdings soup m) \<longrightarrow>
      str_in ''buy'' (str_lower (Recent_Activity r)) \<or>
      str_in ''add'' (str_lower (Recent_Activity r))) \<and>
   (\<not> str_in ''buy''
        (str_lower (cell_text (find_all [''td''] any_tag row) (col_get col_map ''activity'' 4))) \<and>
    \<not> str_in ''add''
        (str_lower (cell_text (find_all [''td''] any_tag row) (col_get col_map ''activity'' 4)))
      \<longrightarrow> parse_row col_map m row = None) \<and>
   ((str_lower v = ''buy'' \<or> str_lower v = ''add'') \<and>
    str_in v (cell_text (find_all [''td''] any_tag row') (col_get col_map ''activity'' 4)) \<and>
    3 \<le> length (find_all [''td''] any_tag row')
      \<longrightarrow> (\<exists>h. parse_row col_map m row' = Some h \<and>
             Recent_Activity h =
               cell_text (find_all [''td''] any_tag row') (col_get col_map ''activity'' 4)))"
proof (intro conjI impI)
  assume "r \<in> set (parse_holdings soup m)"
  then obtain cm rw where "parse_row cm m rw = Some r" by (blast dest: parse_holdings_rows)
  then have "activity_ok (Recent_Activity r)" by (rule parse_row_Some)
  then show "str_in ''buy'' (str_lower (Recent_Activity r)) \<or>
      str_in ''add'' (str_lower (Recent_Activity r))"
    by (simp add: activity_ok_def Let_def)
next
  let ?act = "cell_text (find_all [''td''] any_tag row) (col_get col_map ''activity'' 4)"
  assume "\<not> str_in ''buy'' (str_lower ?act) \<and> \<not> str_in ''add'' (str_lower ?act)"
  then have "\<not> activity_ok ?act" by (simp add: activity_ok_def Let_def)
  then show "parse_row col_map m row = None" by (rule parse_row_rejected)
next
  let ?act = "cell_text (find_all [''td''] any_tag row') (col_get col_map ''activity'' 4)"
  assume a: "(str_lower v = ''buy'' \<or> str_lower v = ''add'') \<and> str_in v ?act \<and>
    3 \<le> length (find_all [''td''] any_tag row')"
  then have "str_in (str_lower v) (str_lower ?act)" by (simp add: str_lower_in)
  with a have "activity_ok ?act" by (auto simp: activity_ok_def Let_def)
  with a show "\<exists>h. parse_row col_map m row' = Some h \<and> Recent_Activity h = ?act"
    by (simp add: parse_row_accepted)
qed

theorem activity_filter_witness:
  "apple_record ''Warren Buffett'' \<in> set (parse_holdings (apple_page no_attrs) ''Warren Buffett'') \<and>
   Recent_Activity (apple_record ''Warren Buffett'') = ''Buy'' \<and>
   parse_row mixed_cols ''Warren Buffett'' (data_row [''Tesla Inc - TSLA'', ''Sell'', ''1.0%'']) = None \<and>
   (\<exists>h. parse_row mixed_cols ''Warren Buffett'' (data_row [''Tesla Inc - TSLA'', ''BUY 4%'', ''1.0%''])
          = Some h \<and> Recent_Activity h = ''BUY 4%'')"
  using activity_filter [where r = "apple_record ''Warren Buffett''" and soup = "apple_page no_attrs"
      and m = "''Warren Buffett''" and col_map = mixed_cols
      and row = "data_row [''Tesla Inc - TSLA'', ''Sell'', ''1.0%'']" and v = "''BUY''"
      and row' = "data_row [''Tesla Inc - TSLA'', ''BUY 4%'', ''1.0%'']"]
  by (simp add: apple_records mixed_row_sell mixed_row_upper lower_defs apple_record_def)

section \<open>Short rows and the header row\<close>

text \<open>
  Claim C8. A row with fewer than three \<^verbatim>\<open>td\<close> cells yields no record. The records of a
  table are those of the rows after its first row, the header row, each row on its own:
  the header row is used for the column map only, and a short row between other rows
  leaves the records of the rows before and after it. The extractor is a total function
  with no error value: every cell access of the source is guarded by the row's length.
\<close>

theorem short_rows_skipped:
  "(length (find_all [''td''] any_tag row) < 3 \<longrightarrow> parse_row col_map m row = None) \<and>
   (find_all [''tr''] any_tag table = header_row # rows \<longrightarrow>
      parse_table table m =
        List.map_filter (parse_row (map_columns (header_texts header_row)) m) rows) \<and>
   (find_all [''tr''] any_tag table' = header_row' # before @ short # after \<and>
    length (find_all [''td''] any_tag short) < 3 \<longrightarrow>
      parse_table table' m =
        List.map_filter (parse_row (map_columns (header_texts header_row')) m) before @
        List.map_filter (parse_row (map_columns (header_texts header_row')) m) after)"
proof (intro conjI impI)
  assume "length (find_all [''td''] any_tag row) < 3"
  then show "parse_row col_map m row = None" by (rule parse_row_short)
next
  assume "find_all [''tr''] any_tag table = header_row # rows"
  then show "parse_table table m =
      List.map_filter (parse_row (map_columns (header_texts header_row)) m) rows"
    by (rule parse_table_rows)
next
  let ?f = "parse_row (map_columns (header_texts header_row')) m"
  assume a: "find_all [''tr''] any_tag table' = header_row' # before @ short # after \<and>
    length (find_all [''td''] any_tag short) < 3"
  then have "?f short = None" by (simp add: parse_row_short)
  then have "List.map_filter ?f (before @ short # after) =
      List.map_filter ?f before @ List.map_filter ?f after"
    by (simp add: map_filter_append)
  with a show "parse_table table' m = List.map_filter ?f before @ List.map_filter ?f after"
    by (simp add: parse_table_rows)
qed

theorem short_rows_skipped_witness:
  "parse_row mixed_cols ''Warren Buffett'' (data_row [''Subtotal'', ''Buy'']) = None \<and>
   parse_row mixed_cols ''Warren Buffett'' mixed_header \<noteq> None \<and>
   parse_table mixed_table ''Warren Buffett'' =
     [\<lparr>Manager = ''Warren Buffett'', Stock = ''Apple Inc - AAPL'', Ticker = ''AAPL'',
       Recent_Activity = ''Buy'', Portfolio_Pct = ''5.2%'', Reported_Price = []\<rparr>,
      \<lparr>Manager = ''Warren Buffett'', Stock = ''Microsoft Corp - MSFT'', Ticker = ''MSFT'',
       Recent_Activity = ''Add 3.10%'', Portfolio_Pct = ''2.0%'', Reported_Price = []\<rparr>]"
  using short_rows_skipped [where row = "data_row [''Subtotal'', ''Buy'']" and col_map = mixed_cols
      and m = "''Warren Buffett''" and table = mixed_table and header_row = mixed_header
      and rows = "[data_row [''Apple Inc - AAPL'', ''Buy'', ''5.2%''],
                   data_row [''Subtotal'', ''Buy''],
                   data_row [''Microsoft Corp - MSFT'', ''Add 3.10%'', ''2.0%'']]"
      and table' = mixed_table and header_row' = mixed_header
      and before = "[data_row [''Apple Inc - AAPL'', ''Buy'', ''5.2%'']]"
      and short = "data_row [''Subtotal'', ''Buy'']"
      and after = "[data_row [''Microsoft Corp - MSFT'', ''Add 3.10%'', ''2.0%'']]"]
    mixed_header_as_row [of "''Warren Buffett''"]
  by (simp add: mixed_rows mixed_short mixed_header_cols mixed_row_apple mixed_row_msft)

section \<open>The alphabet of the ticker\<close>



section \<open>Column mapping\<close>

lemma assign_col_price_changes:
  "assign_col col_map (i, h) ''price'' \<noteq> col_map ''price'' \<Longrightarrow>
     assign_col col_map (i, h) ''price'' = Some i \<and> (str_in ''price'' h \<or> str_in ''reported'' h)"
  by (auto simp: assign_col_def Let_def split: if_splits)

lemma foldl_assign_col_price:
  "foldl assign_col col_map (enumerate n hs) ''price'' = Some j \<Longrightarrow>
     col_map ''price'' = Some j \<or>
     (n \<le> j \<and> j < n + length hs \<and>
      (str_in ''price'' (hs ! (j - n)) \<or> str_in ''reported'' (hs ! (j - n))))"
proof (induction hs arbitrary: col_map n)
  case Nil
  then show ?case by simp
next
  case (Cons h hs)
  from Cons.prems
  have "foldl assign_col (assign_col col_map (n, h)) (enumerate (Suc n) hs) ''price'' = Some j"
    by simp
  from Cons.IH [OF this] consider "assign_col col_map (n, h) ''price'' = Some j"
    | "Suc n \<le> j" "j < Suc n + length hs"
      "str_in ''price'' (hs ! (j - Suc n)) \<or> str_in ''reported'' (hs ! (j - Suc n))"
    by blast
  then show ?case
  proof cases
    case 1
    show ?thesis
    proof (cases "assign_col col_map (n, h) ''price'' = col_map ''price''")
      case True
      with 1 show ?thesis by simp
    next
      case False
      from assign_col_price_changes [OF False] 1
      have "j = n" "str_in ''price'' h \<or> str_in ''reported'' h" by auto
      then show ?thesis by simp
    qed
  next
    case 2
    then have "(h # hs) ! (j - n) = hs ! (j - Suc n)" by (simp add: nth_Cons')
    with 2 show ?thesis by auto
  qed
qed

lemma map_columns_price:
  "map_columns headers ''price'' = Some j \<Longrightarrow>
     j < length headers \<and> (str_in ''price'' (headers ! j) \<or> str_in ''reported'' (headers ! j))"
  unfolding map_columns_def using foldl_assign_col_price [of Map.empty 0 headers j] by simp

lemma reported_price_wins:
  "str_in ''reported'' h \<Longrightarrow> \<not> str_in ''stock'' h \<Longrightarrow> \<not> str_in ''activity'' h \<Longrightarrow>
   \<not> (str_in ''portfolio'' h \<and> str_in ''%'' h) \<Longrightarrow> assign_col col_map (i, h) ''price'' = Some i"
  by (auto simp: assign_col_def Let_def)

lemma generic_price_keeps:
  "\<not> str_in ''reported'' h \<Longrightarrow> col_map ''price'' = Some j \<Longrightarrow>
     assign_col col_map (i, h) ''price'' = Some j"
  by (auto simp: assign_col_def Let_def)

lemma header_texts_of:
  "header_texts (header_row_of [''Stock'', ''Reported Date'']) = [''stock'', ''reported date'']"
  "header_texts (header_row_of [''Price'', ''Stock Reported Price'']) =
     [''price'', ''stock reported price'']"
  "header_texts (header_row_of [''Price'', ''Reported Price'', ''Last Price'']) =
     [''price'', ''reported price'', ''last price'']"
  by (simp_all add: header_texts_def dom_defs lower_defs)

lemma map_columns_samples:
  "map_columns [''stock'', ''reported date''] ''price'' = Some 1"
  "map_columns [''price'', ''stock reported price''] ''price'' = Some 0"
  "map_columns [''price'', ''reported price'', ''last price''] ''price'' = Some 1"
  by (simp_all add: map_columns_def assign_col_def enumerate_eq_zip upt_rec)

text \<open>
  The claim as written fails twice. A header \<^verbatim>\<open>Reported Date\<close>, whose text does not
  contain \<^verbatim>\<open>price\<close>, is mapped to the price field. A header \<^verbatim>\<open>Stock Reported Price\<close>,
  which contains both \<^verbatim>\<open>reported\<close> and \<^verbatim>\<open>price\<close>, does not take the price field from the
  generic \<^verbatim>\<open>Price\<close> header before it: the test for \<^verbatim>\<open>stock\<close> comes first.
\<close>

theorem price_column_counterexample:
  "map_columns (header_texts (header_row_of [''Stock'', ''Reported Date''])) ''price'' = Some 1 \<and>
   \<not> str_in ''price'' (str_lower ''Reported Date'') \<and>
   map_columns (header_texts (header_row_of [''Price'', ''Stock Reported Price''])) ''price'' = Some 0 \<and>
   str_in ''reported'' (str_lower ''Stock Reported Price'') \<and>
   str_in ''price'' (str_lower ''Stock Reported Price'')"
  by (simp add: header_texts_of map_columns_samples) (simp add: lower_defs)

text \<open>
  Claim C6, amended. A header is mapped to the price field only if its lower-cased text
  contains \<^verbatim>\<open>price\<close> or \<^verbatim>\<open>reported\<close>. A header whose text contains \<^verbatim>\<open>reported\<close> and
  \<^verbatim>\<open>price\<close>, and none of the keywords tested before (\<^verbatim>\<open>stock\<close>, \<^verbatim>\<open>activity\<close>, \<^verbatim>\<open>portfolio\<close>
  with \<^verbatim>\<open>%\<close>), takes the price field whatever was assigned to it. A header without
  \<^verbatim>\<open>reported\<close> never changes a price field that is assigned.
\<close>

theorem price_column_mapping:
  "(assign_col col_map (i, h) ''price'' \<noteq> col_map ''price'' \<longrightarrow>
      assign_col col_map (i, h) ''price'' = Some i \<and> (str_in ''price'' h \<or> str_in ''reported'' h)) \<and>
   (map_columns headers ''price'' = Some j \<longrightarrow>
      j < length headers \<and> (str_in ''price'' (headers ! j) \<or> str_in ''reported'' (headers ! j))) \<and>
   (str_in ''reported'' h' \<and> str_in ''price'' h' \<and> \<not> str_in ''stock'' h' \<and>
    \<not> str_in ''activity'' h' \<and> \<not> (str_in ''portfolio'' h' \<and> str_in ''%'' h') \<longrightarrow>
      assign_col col_map' (i', h') ''price'' = Some i') \<and>
   (\<not> str_in ''reported'' h'' \<and> col_map'' ''price'' = Some k \<longrightarrow>
      assign_col col_map'' (i'', h'') ''price'' = Some k)"
  using assign_col_price_changes map_columns_price reported_price_wins generic_price_keeps
  by blast

theorem price_column_mapping_witness:
  "map_columns (header_texts (header_row_of [''Price'', ''Reported Price'', ''Last Price'']))
      ''price'' = Some 1 \<and>
   assign_col Map.empty (0, ''price'') ''price'' = Some 0 \<and>
   assign_col [''price'' \<mapsto> 0] (1, ''reported price'') ''price'' = Some 1 \<and>
   assign_col [''price'' \<mapsto> 1] (2, ''last price'') ''price'' = Some 1"
  using price_column_mapping [where col_map = Map.empty and i = 0 and h = "''price''"
      and headers = "[''price'', ''reported price'', ''last price'']" and j = 1
      and h' = "''reported price''" and col_map' = "[''price'' \<mapsto> 0]" and i' = 1
      and h'' = "''last price''" and col_map'' = "[''price'' \<mapsto> 1]" and k = 1 and i'' = 2]
  by (simp add: header_texts_of map_columns_samples assign_col_def)

section \<open>The index collector\<close>

lemma dedup_first_seen:
  "dedup seen unique entries = unique @ first_seen (filter (\<lambda>x. url x \<notin> seen) entries)"
proof (induction entries arbitrary: seen unique)
  case Nil
  show ?case by simp
next
  case (Cons m rest)
  show ?case
  proof (cases "url m \<in> seen")
    case True
    then show ?thesis by (simp add: Cons.IH)
  next
    case False
    have "filter (\<lambda>x. url x \<noteq> url m) (filter (\<lambda>x. url x \<notin> seen) rest)
        = filter (\<lambda>x. url x \<notin> insert (url m) seen) rest"
      by (induction rest) auto
    with False show ?thesis by (simp add: Cons.IH)
  qed
qed

lemma first_seen_set: "url ` set (first_seen entries) = url ` set entries"
proof (induction entries rule: first_seen.induct)
  case 1
  show ?case by simp
next
  case (2 m rest)
  then show ?case by auto
qed

lemma first_seen_distinct: "distinct (map url (first_seen entries))"
proof (induction entries rule: first_seen.induct)
  case 1
  show ?case by simp
next
  case (2 m rest)
  have "url m \<notin> url ` set (filter (\<lambda>x. url x \<noteq> url m) rest)" by auto
  then have "url m \<notin> url ` set (first_seen (filter (\<lambda>x. url x \<noteq> url m) rest))"
    unfolding first_seen_set .
  with 2 show ?case by simp
qed

lemma first_seen_length: "length (first_seen entries) = card (url ` set entries)"
proof -
  have "length (first_seen entries) = length (map url (first_seen entries))" by simp
  also have "\<dots> = card (set (map url (first_seen entries)))"
    using first_seen_distinct by (simp only: distinct_card)
  also have "\<dots> = card (url ` set entries)" by (simp add: first_seen_set)
  finally show ?thesis .
qed

lemma collect_links_first_seen:
  "collect_links soup = first_seen (List.map_filter link_entry (select_links soup))"
  by (simp add: collect_links_def dedup_first_seen)

lemmas link_defs = get_manager_links_def fetch_page_def MANAGERS_URL_def BASE_URL_def
  collect_links_def select_links_def link_entry_def href_of_def

lemma sample_links: "get_manager_links sample_site = Inr sample_managers"
  by (simp add: link_defs sample_site_def sample_index_def sample_managers_def dom_defs)


lemma blank_links:
  "map href_of (select_links blank_link_page) = [''/m/holdings.php?m=BRK'']"
  "get_manager_links (\<lambda>u. Some blank_link_page) = Inr []"
  by (simp_all add: link_defs blank_link_page_def dom_defs)

text \<open>
  The claim as written fails on a listing whose one link to a detail page has no text:
  one anchor matches the pattern, it resolves to one URL, and no entry is returned,
  because the collector passes over a link without text.
\<close>

theorem manager_links_counterexample:
  "map href_of (select_links blank_link_page) = [''/m/holdings.php?m=BRK''] \<and>
   get_manager_links (\<lambda>u. Some blank_link_page) = Inr []"
  by (simp add: blank_links)

text \<open>
  Claim C5, amended. When the listing page is fetched, the collector returns the entries
  of the matching anchors that have text (\<open>link_entry\<close> pairs the text with the resolved
  URL), deduplicated by URL in first-seen order: as many entries as these anchors have
  distinct resolved URLs, no URL twice.
\<close>

theorem manager_links_first_seen:
  "fetch_page web MANAGERS_URL = Some soup \<longrightarrow>
     get_manager_links web = Inr (first_seen (List.map_filter link_entry (select_links soup))) \<and>
     length (first_seen (List.map_filter link_entry (select_links soup))) =
       card (url ` set (List.map_filter link_entry (select_links soup))) \<and>
     distinct (map url (first_seen (List.map_filter link_entry (select_links soup))))"
  by (simp add: get_manager_links_def collect_links_first_seen first_seen_length
      first_seen_distinct)

lemma sample_select: "length (select_links sample_index) = 4"
  by (simp add: select_links_def sample_index_def dom_defs)

lemma sample_first_seen:
  "first_seen (List.map_filter link_entry (select_links sample_index)) = sample_managers"
  by (simp add: link_defs sample_index_def sample_managers_def dom_defs)

lemma sample_managers_length: "length sample_managers = 3" "sample_managers \<noteq> []"
  by (simp_all add: sample_managers_def)

theorem manager_links_first_seen_witness:
  "length (select_links sample_index) = 4 \<and>
   get_manager_links sample_site = Inr sample_managers \<and>
   length sample_managers = 3 \<and>
   distinct (map url sample_managers)"
  using manager_links_first_seen [of sample_site sample_index]
  by (simp add: fetch_page_def MANAGERS_URL_def BASE_URL_def sample_site_def sample_select
      sample_first_seen sample_managers_length)

section \<open>The orchestrator\<close>

lemma visit_observe:
  "observe st1 = observe st2 \<Longrightarrow> observe (visit web d1 st1 mgr) = observe (visit web d2 st2 mgr)"
  by (auto simp: observe_def visit_def Let_def split: option.splits)

lemma crawl_observe:
  "observe st1 = observe st2 \<Longrightarrow>
     observe (crawl_from web rnd1 i st1 managers) = observe (crawl_from web rnd2 j st2 managers)"
proof (induction managers arbitrary: i j st1 st2)
  case Nil
  then show ?case by simp
next
  case (Cons mgr managers)
  from Cons.prems
  have "observe (visit web (rnd1 i) st1 mgr) = observe (visit web (rnd2 j) st2 mgr)"
    by (rule visit_observe)
  then show ?case by (simp add: Cons.IH)
qed







lemma is_q4_apple_page: "is_q4_2025 (apple_page a)"
proof (rule is_q4_2025_quarter)
  have "prefix ''Period: Q4 2025'' (get_text '' '' (apple_page a))"
    by (simp add: apple_page_def apple_table_def dom_defs)
  then obtain b where "get_text '' '' (apple_page a) = ''Period: '' @ ''Q4 2025'' @ b"
    by (auto simp: prefix_def)
  then show "str_in ''Q4 2025'' (get_text '' '' (apple_page a))"
    unfolding str_in_iff by blast
qed

lemma sample_crawl:
  "crawl_from sample_site rnd (Suc 0) start sample_managers =
     \<lparr>all_records = [apple_record ''Warren Buffett''], q4_count = 1, skip_count = 1,
      slept = [rnd 1, rnd 2, rnd 3],
      console = [(''Warren Buffett'', Found 1), (''Bill Ackman'', RequestFailed),
                 (''Old Fund'', NotQ4)]\<rparr>"
  by (simp add: sample_managers_def visit_def fetch_page_def sample_site_def start_def
      is_q4_apple_page not_q4_q3_page apple_records Let_def numeral_2_eq_2 numeral_3_eq_3)

lemma sample_run:
  "main sample_site rnd =
     Inr \<lparr>final = crawl_from sample_site rnd (Suc 0) start sample_managers,
          written = [to_excel [apple_record ''Warren Buffett'']],
          last_line = Saved OUTPUT_FILE\<rparr>"
  by (simp add: main_def sample_links Let_def sample_managers_length)
     (simp add: sample_crawl)


section \<open>A request that fails\<close>




section \<open>The export\<close>



section \<open>The delays do not reach the output\<close>

text \<open>
  Claim C9. The outcome of a run is a function of the pages of the site; of the random
  delays it keeps only the time slept. Two runs over the same site with any two
  sequences of delays either both stop at the index with the same exit, or both reach
  their end with the same records in the same order, the same counters, the same lines
  printed, the same workbook written and the same last line.
\<close>

theorem records_independent_of_delays:
  "(case main web rnd of
      Inl e \<Rightarrow> main web rnd' = Inl e
    | Inr r1 \<Rightarrow>
        (\<exists>r2. main web rnd' = Inr r2 \<and>
              all_records (final r1) = all_records (final r2) \<and>
              observe (final r1) = observe (final r2) \<and>
              written r1 = written r2 \<and> last_line r1 = last_line r2))"
proof (cases "get_manager_links web")
  case (Inl e)
  then show ?thesis by (simp add: main_def)
next
  case (Inr managers)
  show ?thesis
  proof (cases "managers = []")
    case True
    with Inr show ?thesis by (simp add: main_def)
  next
    case False
    have "observe (crawl_from web rnd 1 start managers) =
        observe (crawl_from web rnd' 1 start managers)"
      by (rule crawl_observe) (simp add: observe_def start_def)
    then have same: "all_records (crawl_from web rnd 1 start managers) =
        all_records (crawl_from web rnd' 1 start managers)"
      by (simp add: observe_def)
    with Inr False \<open>observe (crawl_from web rnd 1 start managers) =
        observe (crawl_from web rnd' 1 start managers)\<close>
    show ?thesis by (simp add: main_def Let_def)
  qed
qed

theorem records_independent_of_delays_witness:
  "\<exists>r2. main sample_site (\<lambda>i. 3 * i + 1) = Inr r2 \<and>
        all_records (final r2) = [apple_record ''Warren Buffett''] \<and>
        written r2 = [to_excel [apple_record ''Warren Buffett'']] \<and>
        last_line r2 = Saved OUTPUT_FILE"
  using records_independent_of_delays [where web = sample_site and rnd = "\<lambda>i. i"
      and rnd' = "\<lambda>i. 3 * i + 1"]
  by (simp add: sample_run [of "\<lambda>i. i"] sample_crawl [of "\<lambda>i. i"]) metis

end
